theory Spec2Isabelle
  imports Complex_Main
begin

section \<open>The eye aspect ratio script (test_asymmetric_eyes.py)\<close>

text \<open>
  The script computes the Eye Aspect Ratio of six landmark points. It is modelled twice.
  The first model computes with mathematical reals, the arithmetic of the specification
  (``a pair of real-valued coordinates''): it carries what is the same in exact and in
  rounded arithmetic (the reading of the list, the two concrete scenarios of the script,
  the percentage difference of a number with itself). The second model computes with
  IEEE 754 doubles, as Python does: it carries what rounding, overflow or underflow can
  decide.

  A point is the Python list of its coordinates, a landmark set the list of its points.
  What ends a computation early is a value of \<open>py_error\<close>: IndexError (a list read past
  its end), ZeroDivisionError (the true division \<open>/\<close> by zero) and OverflowError (a power
  beyond the range of the doubles). \<open>ComplexResult\<close> is no exception: it marks a power
  whose result would be a complex number, which the script never computes.
\<close>

datatype py_error = IndexError | ZeroDivisionError | OverflowError | ComplexResult

type_synonym point = "real list"

text \<open>\<open>xs[i]\<close> for a literal index \<open>i \<ge> 0\<close>.\<close>

definition getitem :: "'a list \<Rightarrow> nat \<Rightarrow> py_error + 'a" where
  "getitem xs i = (if i < length xs then Inr (xs ! i) else Inl IndexError)"

text \<open>\<open>a / b\<close> on Python numbers.\<close>

definition truediv :: "real \<Rightarrow> real \<Rightarrow> py_error + real" where
  "truediv a b = (if b = 0 then Inl ZeroDivisionError else Inr (a / b))"

subsection \<open>generate_eye_points\<close>

definition generate_eye_points :: "real \<Rightarrow> real \<Rightarrow> real \<Rightarrow> real \<Rightarrow> point list" where
  "generate_eye_points center_x center_y eye_width eye_height =
     [[center_x - eye_width / 2, center_y],
      [center_x + eye_width / 2, center_y],
      [center_x, center_y - eye_height / 2],
      [center_x, center_y + eye_height / 2],
      [center_x - eye_width / 4, center_y - eye_height / 2],
      [center_x + eye_width / 4, center_y - eye_height / 2]]"

subsection \<open>calculate_distance\<close>

text \<open>
  \<open>((p1[0] - p2[0])**2 + (p1[1] - p2[1])**2)**0.5\<close>. The subscripts are read from left
  to right; the base of \<open>**0.5\<close> is a sum of squares, so the power is the real one.
\<close>

definition calculate_distance :: "point \<Rightarrow> point \<Rightarrow> py_error + real" where
  "calculate_distance p1 p2 =
     (case getitem p1 0 of Inl e \<Rightarrow> Inl e | Inr a0 \<Rightarrow>
      case getitem p2 0 of Inl e \<Rightarrow> Inl e | Inr b0 \<Rightarrow>
      case getitem p1 1 of Inl e \<Rightarrow> Inl e | Inr a1 \<Rightarrow>
      case getitem p2 1 of Inl e \<Rightarrow> Inl e | Inr b1 \<Rightarrow>
        Inr (((a0 - b0)\<^sup>2 + (a1 - b1)\<^sup>2) powr 0.5))"

subsection \<open>calculate_ear\<close>

text \<open>
  The arguments of each call are evaluated before the call, and the three distances in
  the order A, B, C; the division is the last step.
\<close>

definition calculate_ear :: "point list \<Rightarrow> py_error + real" where
  "calculate_ear eye_points =
     (case getitem eye_points 1 of Inl e \<Rightarrow> Inl e | Inr q1 \<Rightarrow>
      case getitem eye_points 5 of Inl e \<Rightarrow> Inl e | Inr q5 \<Rightarrow>
      case calculate_distance q1 q5 of Inl e \<Rightarrow> Inl e | Inr A \<Rightarrow>
      case getitem eye_points 2 of Inl e \<Rightarrow> Inl e | Inr q2 \<Rightarrow>
      case getitem eye_points 4 of Inl e \<Rightarrow> Inl e | Inr q4 \<Rightarrow>
      case calculate_distance q2 q4 of Inl e \<Rightarrow> Inl e | Inr B \<Rightarrow>
      case getitem eye_points 0 of Inl e \<Rightarrow> Inl e | Inr q0 \<Rightarrow>
      case getitem eye_points 3 of Inl e \<Rightarrow> Inl e | Inr q3 \<Rightarrow>
      case calculate_distance q0 q3 of Inl e \<Rightarrow> Inl e | Inr C \<Rightarrow>
        truediv (A + B) (2 * C))"

subsection \<open>calculate_percentage_difference\<close>

text \<open>\<open>abs(ear1 - ear2) / ((ear1 + ear2) / 2.0) * 100.0\<close>\<close>

definition calculate_percentage_difference :: "real \<Rightarrow> real \<Rightarrow> py_error + real" where
  "calculate_percentage_difference ear1 ear2 =
     (case truediv \<bar>ear1 - ear2\<bar> ((ear1 + ear2) / 2) of
        Inl e \<Rightarrow> Inl e
      | Inr q \<Rightarrow> Inr (q * 100))"

subsection \<open>The two simulations\<close>

text \<open>
  Both simulations print what they computed. The model returns the printed quantities
  (the numbers themselves, not their decimal rendering), or the exception that ends the
  run before anything is printed.
\<close>

record old_report =
  old_left_ear :: real
  old_right_ear :: real
  old_difference :: real
  old_are_equal :: bool

record new_report =
  new_left_ear :: real
  new_right_ear :: real
  new_difference :: real
  new_percentage_difference :: real
  new_are_different :: bool

definition simulate_old_behavior :: "py_error + old_report" where
  "simulate_old_behavior =
     (let left_eye_points = generate_eye_points 320 240 20 10;
          right_eye_points = generate_eye_points 380 240 20 10
      in case calculate_ear left_eye_points of Inl e \<Rightarrow> Inl e | Inr left_ear \<Rightarrow>
         case calculate_ear right_eye_points of Inl e \<Rightarrow> Inl e | Inr right_ear \<Rightarrow>
           Inr \<lparr>old_left_ear = left_ear, old_right_ear = right_ear,
                old_difference = \<bar>left_ear - right_ear\<bar>,
                old_are_equal = (left_ear = right_ear)\<rparr>)"

definition simulate_new_behavior :: "py_error + new_report" where
  "simulate_new_behavior =
     (let left_eye_points = generate_eye_points 320 240 (20 * 0.95) (10 * 0.92);
          right_eye_points = generate_eye_points 380 240 (20 * 1.05) (10 * 1.08)
      in case calculate_ear left_eye_points of Inl e \<Rightarrow> Inl e | Inr left_ear \<Rightarrow>
         case calculate_ear right_eye_points of Inl e \<Rightarrow> Inl e | Inr right_ear \<Rightarrow>
         case calculate_percentage_difference left_ear right_ear of Inl e \<Rightarrow> Inl e | Inr pd \<Rightarrow>
           Inr \<lparr>new_left_ear = left_ear, new_right_ear = right_ear,
                new_difference = \<bar>left_ear - right_ear\<bar>,
                new_percentage_difference = pd,
                new_are_different = (left_ear \<noteq> right_ear)\<rparr>)"

subsection \<open>The vocabulary of the specification\<close>

text \<open>
  The Euclidean distance of two planar points, as the specification words it; it is
  compared with \<open>calculate_distance\<close> below.
\<close>

definition euclidean_distance :: "point \<Rightarrow> point \<Rightarrow> real" where
  "euclidean_distance p q = sqrt ((p ! 0 - q ! 0)\<^sup>2 + (p ! 1 - q ! 1)\<^sup>2)"

text \<open>A landmark whose list holds exactly an x and a y coordinate.\<close>

definition is_2d :: "point \<Rightarrow> bool" where
  "is_2d p = (length p = 2)"

text \<open>Every coordinate of every point multiplied by \<open>k\<close>.\<close>

definition scale_points :: "real \<Rightarrow> point list \<Rightarrow> point list" where
  "scale_points k ps = map (map (\<lambda>c. k * c)) ps"

section \<open>The script in double precision\<close>

text \<open>
  Python computes with IEEE 754 binary64 numbers, not with reals. The second model of the
  script follows them: every operation rounds, a square can leave the range of the doubles
  and an intermediate result can underflow to zero.

  \<open>Num x\<close> is the finite double of value \<open>x\<close>; the two zeros are one value, since the
  script never observes the sign of a zero. \<open>PosInf\<close> and \<open>NegInf\<close> are the infinities and
  \<open>NaN\<close> is not-a-number.
\<close>

datatype double = Num real | PosInf | NegInf | NaN

text \<open>Rounding to the nearest integer, a tie to the even neighbour.\<close>

definition round_half_even :: "real \<Rightarrow> int" where
  "round_half_even x =
     (let f = \<lfloor>x\<rfloor>; d = x - of_int f
      in if d < 1 / 2 then f else if 1 / 2 < d then f + 1 else if even f then f else f + 1)"

text \<open>
  The exponent of the last place of the doubles around \<open>x\<close>: 52 below the binary exponent
  of \<open>x\<close>, and never below that of the subnormal numbers.
\<close>

definition ulp_exponent :: "real \<Rightarrow> int" where
  "ulp_exponent x = max \<lfloor>log 2 \<bar>x\<bar>\<rfloor> (- 1022) - 52"

definition round_to_double :: "real \<Rightarrow> real" where
  "round_to_double x =
     of_int (round_half_even (x / 2 powi ulp_exponent x)) * 2 powi ulp_exponent x"

text \<open>
  The double nearest to a real (round to nearest, ties to even); a rounded magnitude of
  \<open>2 ^ 1024\<close> or more is an infinity.
\<close>

definition rnd :: "real \<Rightarrow> double" where
  "rnd x =
     (let y = round_to_double x
      in if 2 ^ 1024 \<le> y then PosInf else if y \<le> - (2 ^ 1024) then NegInf else Num y)"

text \<open>A real that is the value of a finite double.\<close>

definition is_double :: "real \<Rightarrow> bool" where
  "is_double x = (rnd x = Num x)"

subsection \<open>The operators of the script on floats\<close>

fun float_neg :: "double \<Rightarrow> double" where
  "float_neg (Num x) = Num (- x)"
| "float_neg PosInf = NegInf"
| "float_neg NegInf = PosInf"
| "float_neg NaN = NaN"

text \<open>\<open>a + b\<close>, \<open>a - b\<close> and \<open>a * b\<close> raise nothing: an overflow gives an infinity.\<close>

fun float_add :: "double \<Rightarrow> double \<Rightarrow> double" where
  "float_add (Num x) (Num y) = rnd (x + y)"
| "float_add NaN b = NaN"
| "float_add a NaN = NaN"
| "float_add PosInf NegInf = NaN"
| "float_add NegInf PosInf = NaN"
| "float_add PosInf b = PosInf"
| "float_add NegInf b = NegInf"
| "float_add a PosInf = PosInf"
| "float_add a NegInf = NegInf"

fun float_sub :: "double \<Rightarrow> double \<Rightarrow> double" where
  "float_sub (Num x) (Num y) = rnd (x - y)"
| "float_sub NaN b = NaN"
| "float_sub a NaN = NaN"
| "float_sub PosInf PosInf = NaN"
| "float_sub NegInf NegInf = NaN"
| "float_sub PosInf b = PosInf"
| "float_sub NegInf b = NegInf"
| "float_sub a PosInf = NegInf"
| "float_sub a NegInf = PosInf"

fun float_mul :: "double \<Rightarrow> double \<Rightarrow> double" where
  "float_mul (Num x) (Num y) = rnd (x * y)"
| "float_mul NaN b = NaN"
| "float_mul a NaN = NaN"
| "float_mul (Num x) b = (if x = 0 then NaN else if x < 0 then float_neg b else b)"
| "float_mul a (Num y) = (if y = 0 then NaN else if y < 0 then float_neg a else a)"
| "float_mul PosInf b = b"
| "float_mul NegInf b = float_neg b"

text \<open>The quotient of IEEE 754 for a divisor that is not zero.\<close>

fun ieee_div :: "double \<Rightarrow> double \<Rightarrow> double" where
  "ieee_div (Num x) (Num y) = rnd (x / y)"
| "ieee_div NaN b = NaN"
| "ieee_div a NaN = NaN"
| "ieee_div (Num x) b = Num 0"
| "ieee_div a (Num y) = (if y < 0 then float_neg a else a)"
| "ieee_div a b = NaN"

text \<open>\<open>a / b\<close>: Python tests the divisor first and raises on zero, whatever \<open>a\<close> is.\<close>

definition float_truediv :: "double \<Rightarrow> double \<Rightarrow> py_error + double" where
  "float_truediv a b = (if b = Num 0 then Inl ZeroDivisionError else Inr (ieee_div a b))"

definition is_odd_integer :: "real \<Rightarrow> bool" where
  "is_odd_integer w = (w = of_int \<lfloor>w\<rfloor> \<and> odd \<lfloor>w\<rfloor>)"

text \<open>
  \<open>v ** w\<close> for a float \<open>v\<close> and a finite exponent \<open>w\<close>, in the order of the interpreter:
  the exponent 0, then a NaN or infinite base, a zero base, a negative base under a
  fractional exponent (the result is a complex number: \<open>ComplexResult\<close>, which the script
  never reaches), and at last the C library's \<open>pow\<close> on the magnitude of the base, taken
  to be correctly rounded. An infinite result of \<open>pow\<close> is raised as OverflowError; an
  underflow to zero is returned.
\<close>

definition float_pow :: "double \<Rightarrow> real \<Rightarrow> py_error + double" where
  "float_pow v w =
     (if w = 0 then Inr (Num 1)
      else case v of
        NaN \<Rightarrow> Inr NaN
      | PosInf \<Rightarrow> Inr (if 0 < w then PosInf else Num 0)
      | NegInf \<Rightarrow> Inr (if 0 < w then (if is_odd_integer w then NegInf else PosInf) else Num 0)
      | Num x \<Rightarrow>
          if x = 0 then (if w < 0 then Inl ZeroDivisionError else Inr (Num 0))
          else if x < 0 \<and> w \<noteq> of_int \<lfloor>w\<rfloor> then Inl ComplexResult
          else (case rnd (\<bar>x\<bar> powr w) of
                  Num y \<Rightarrow> Inr (Num (if x < 0 \<and> is_odd_integer w then - y else y))
                | _ \<Rightarrow> Inl OverflowError))"

subsection \<open>The functions of the script on floats\<close>

text \<open>
  \<open>((p1[0] - p2[0])**2 + (p1[1] - p2[1])**2)**0.5\<close>: the left square is computed, and can
  raise, before the second coordinates are read.
\<close>

definition calculate_distance_f64 :: "double list \<Rightarrow> double list \<Rightarrow> py_error + double" where
  "calculate_distance_f64 p1 p2 =
     (case getitem p1 0 of Inl e \<Rightarrow> Inl e | Inr a0 \<Rightarrow>
      case getitem p2 0 of Inl e \<Rightarrow> Inl e | Inr b0 \<Rightarrow>
      case float_pow (float_sub a0 b0) 2 of Inl e \<Rightarrow> Inl e | Inr s0 \<Rightarrow>
      case getitem p1 1 of Inl e \<Rightarrow> Inl e | Inr a1 \<Rightarrow>
      case getitem p2 1 of Inl e \<Rightarrow> Inl e | Inr b1 \<Rightarrow>
      case float_pow (float_sub a1 b1) 2 of Inl e \<Rightarrow> Inl e | Inr s1 \<Rightarrow>
        float_pow (float_add s0 s1) 0.5)"

definition calculate_ear_f64 :: "double list list \<Rightarrow> py_error + double" where
  "calculate_ear_f64 eye_points =
     (case getitem eye_points 1 of Inl e \<Rightarrow> Inl e | Inr q1 \<Rightarrow>
      case getitem eye_points 5 of Inl e \<Rightarrow> Inl e | Inr q5 \<Rightarrow>
      case calculate_distance_f64 q1 q5 of Inl e \<Rightarrow> Inl e | Inr A \<Rightarrow>
      case getitem eye_points 2 of Inl e \<Rightarrow> Inl e | Inr q2 \<Rightarrow>
      case getitem eye_points 4 of Inl e \<Rightarrow> Inl e | Inr q4 \<Rightarrow>
      case calculate_distance_f64 q2 q4 of Inl e \<Rightarrow> Inl e | Inr B \<Rightarrow>
      case getitem eye_points 0 of Inl e \<Rightarrow> Inl e | Inr q0 \<Rightarrow>
      case getitem eye_points 3 of Inl e \<Rightarrow> Inl e | Inr q3 \<Rightarrow>
      case calculate_distance_f64 q0 q3 of Inl e \<Rightarrow> Inl e | Inr C \<Rightarrow>
        float_truediv (float_add A B) (float_mul (Num 2) C))"

text \<open>The divisors 2 and 4 are not zero, so the divisions of the generator never raise.\<close>

definition generate_eye_points_f64 ::
  "double \<Rightarrow> double \<Rightarrow> double \<Rightarrow> double \<Rightarrow> double list list" where
  "generate_eye_points_f64 center_x center_y eye_width eye_height =
     [[float_sub center_x (ieee_div eye_width (Num 2)), center_y],
      [float_add center_x (ieee_div eye_width (Num 2)), center_y],
      [center_x, float_sub center_y (ieee_div eye_height (Num 2))],
      [center_x, float_add center_y (ieee_div eye_height (Num 2))],
      [float_sub center_x (ieee_div eye_width (Num 4)), float_sub center_y (ieee_div eye_height (Num 2))],
      [float_add center_x (ieee_div eye_width (Num 4)), float_sub center_y (ieee_div eye_height (Num 2))]]"

subsection \<open>Vocabulary for the floats\<close>

fun is_finite :: "double \<Rightarrow> bool" where
  "is_finite (Num x) = True"
| "is_finite v = False"

text \<open>A landmark of two finite coordinates.\<close>

definition finite_point :: "double list \<Rightarrow> bool" where
  "finite_point q = (length q = 2 \<and> list_all is_finite q)"

text \<open>A float that is zero, a positive number or \<open>+inf\<close>.\<close>

fun not_negative :: "double \<Rightarrow> bool" where
  "not_negative (Num x) = (0 \<le> x)"
| "not_negative PosInf = True"
| "not_negative v = False"

text \<open>
  The distance as \<open>calculate_distance\<close> computes it from the two rounded coordinate
  differences.
\<close>

definition distance_of_differences :: "double \<Rightarrow> double \<Rightarrow> py_error + double" where
  "distance_of_differences d0 d1 =
     (case float_pow d0 2 of Inl e \<Rightarrow> Inl e | Inr s0 \<Rightarrow>
      case float_pow d1 2 of Inl e \<Rightarrow> Inl e | Inr s1 \<Rightarrow>
        float_pow (float_add s0 s1) 0.5)"

section \<open>Basic facts\<close>

lemma getitem_in_range: "i < length xs \<Longrightarrow> getitem xs i = Inr (xs ! i)"
  by (simp add: getitem_def)

lemma calculate_distance_2d:
  assumes "is_2d p1" and "is_2d p2"
  shows "calculate_distance p1 p2 = Inr (euclidean_distance p1 p2)"
  using assms
  by (simp add: calculate_distance_def is_2d_def getitem_in_range
      euclidean_distance_def powr_half_sqrt)

lemma euclidean_distance_nonneg: "0 \<le> euclidean_distance p q"
  by (simp add: euclidean_distance_def)

lemma calculate_ear_six:
  assumes "6 \<le> length p" and "\<forall>i<6. is_2d (p ! i)"
  shows "calculate_ear p =
     (if euclidean_distance (p ! 0) (p ! 3) = 0 then Inl ZeroDivisionError
      else Inr ((euclidean_distance (p ! 1) (p ! 5) + euclidean_distance (p ! 2) (p ! 4))
                / (2 * euclidean_distance (p ! 0) (p ! 3))))"
proof -
  have ne: "p \<noteq> []" using assms(1) by auto
  have l: "1 < length p" "2 < length p" "3 < length p" "4 < length p" "5 < length p"
    using assms(1) by auto
  have d: "is_2d (p ! 0)" "is_2d (p ! 1)" "is_2d (p ! 2)" "is_2d (p ! 3)" "is_2d (p ! 4)"
    "is_2d (p ! 5)"
    using assms(2) by auto
  show ?thesis
    using ne l d
    by (simp add: calculate_ear_def getitem_def calculate_distance_2d truediv_def)
qed

lemma calculate_ear_short:
  assumes "length p < 6"
  shows "calculate_ear p = Inl IndexError"
  using assms
  by (simp add: calculate_ear_def getitem_def split: sum.splits)

lemma euclidean_distance_scale:
  assumes "is_2d p" and "is_2d q"
  shows "euclidean_distance (map (\<lambda>c. k * c) p) (map (\<lambda>c. k * c) q)
       = \<bar>k\<bar> * euclidean_distance p q"
proof -
  have "(k * p ! 0 - k * q ! 0)\<^sup>2 + (k * p ! 1 - k * q ! 1)\<^sup>2
      = k\<^sup>2 * ((p ! 0 - q ! 0)\<^sup>2 + (p ! 1 - q ! 1)\<^sup>2)"
    by (simp add: power2_eq_square algebra_simps)
  then show ?thesis
    using assms by (simp add: euclidean_distance_def is_2d_def real_sqrt_mult)
qed

lemma length_generate_eye_points [simp]:
  "length (generate_eye_points cx cy w h) = 6"
  by (simp add: generate_eye_points_def)

lemma generate_eye_points_2d:
  "i < 6 \<Longrightarrow> is_2d (generate_eye_points cx cy w h ! i)"
  by (auto simp add: generate_eye_points_def is_2d_def nth_Cons')

lemma sqrt_4: "sqrt 4 = 2"
  by (rule real_sqrt_unique) simp_all

lemma sqrt_25: "sqrt 25 = 5"
  by (rule real_sqrt_unique) simp_all

lemma example_distances:
  "euclidean_distance [1, 1] [1, 3] = 2"
  "euclidean_distance [2, 1] [2, 3] = 2"
  "euclidean_distance [0, 0] [3, 4] = 5"
  by (simp_all add: euclidean_distance_def sqrt_4 sqrt_25)

section \<open>The ratio and its errors\<close>

text \<open>
  Claim C3 asks for an error on every list whose length is not six. A list of seven
  points is accepted: the function never looks at the length, it only reads the
  indices 0 to 5.
\<close>

theorem calculate_ear_seven_points_counterexample:
  "length [[0, 0], [1, 1], [2, 1], [3, 4], [2, 3], [1, 3], [9, 9::real]] = 7 \<and>
   calculate_ear [[0, 0], [1, 1], [2, 1], [3, 4], [2, 3], [1, 3], [9, 9]] = Inr (2 / 5)"
proof -
  have "calculate_ear [[0, 0], [1, 1], [2, 1], [3, 4], [2, 3], [1, 3], [9, 9]] = Inr (2 / 5)"
    by (subst calculate_ear_six) (simp_all add: is_2d_def nth_Cons' example_distances)
  then show ?thesis by simp
qed

text \<open>
  Claim C3, amended. A list of fewer than six points, whatever its points are, makes
  \<open>calculate_ear\<close> raise IndexError before any ratio is computed: index 1 or index 5 is
  read first and one of them is out of range.
\<close>

theorem calculate_ear_too_few_points:
  assumes "length p < 6"
  shows "calculate_ear p = Inl IndexError"
  using assms by (rule calculate_ear_short)

theorem calculate_ear_too_few_points_witness:
  "length [[0, 0], [1, 1], [2, 1], [3, 4], [2, 3::real]] < 6 \<and>
   calculate_ear [[0, 0], [1, 1], [2, 1], [3, 4], [2, 3]] = Inl IndexError"
  using calculate_ear_too_few_points [of "[[0, 0], [1, 1], [2, 1], [3, 4], [2, 3]]"]
  by simp

section \<open>Invariance of the ratio\<close>

text \<open>
  The ratio of a generated eye in closed form: the centre does not occur in it.
\<close>

lemma calculate_ear_generated:
  "calculate_ear (generate_eye_points cx cy w h) =
     (if sqrt ((w / 2)\<^sup>2 + (h / 2)\<^sup>2) = 0 then Inl ZeroDivisionError
      else Inr ((sqrt ((w / 4)\<^sup>2 + (h / 2)\<^sup>2) + \<bar>w\<bar> / 4) / (2 * sqrt ((w / 2)\<^sup>2 + (h / 2)\<^sup>2))))"
proof -
  have "calculate_ear (generate_eye_points cx cy w h) =
     (if euclidean_distance (generate_eye_points cx cy w h ! 0) (generate_eye_points cx cy w h ! 3) = 0
      then Inl ZeroDivisionError
      else Inr ((euclidean_distance (generate_eye_points cx cy w h ! 1) (generate_eye_points cx cy w h ! 5)
               + euclidean_distance (generate_eye_points cx cy w h ! 2) (generate_eye_points cx cy w h ! 4))
                / (2 * euclidean_distance (generate_eye_points cx cy w h ! 0) (generate_eye_points cx cy w h ! 3))))"
    by (rule calculate_ear_six) (simp_all add: generate_eye_points_2d)
  moreover have "euclidean_distance (generate_eye_points cx cy w h ! 0) (generate_eye_points cx cy w h ! 3)
      = sqrt ((w / 2)\<^sup>2 + (h / 2)\<^sup>2)"
    by (simp add: generate_eye_points_def euclidean_distance_def nth_Cons' power2_eq_square)
  moreover have "euclidean_distance (generate_eye_points cx cy w h ! 1) (generate_eye_points cx cy w h ! 5)
      = sqrt ((w / 4)\<^sup>2 + (h / 2)\<^sup>2)"
    by (simp add: generate_eye_points_def euclidean_distance_def nth_Cons' power2_eq_square field_simps)
  moreover have "euclidean_distance (generate_eye_points cx cy w h ! 2) (generate_eye_points cx cy w h ! 4)
      = \<bar>w\<bar> / 4"
    by (simp add: generate_eye_points_def euclidean_distance_def nth_Cons')
  ultimately show ?thesis by simp
qed

section \<open>The asymmetric eyes\<close>

text \<open>
  The two eyes of \<open>simulate_new_behavior\<close>: the left ratio lies below 0.54 and the right
  one above it. The square roots are bounded by squaring rational bounds.
\<close>

lemma asymmetric_left_ear:
  "\<exists>l. calculate_ear (generate_eye_points 320 240 19 9.2) = Inr l \<and> 0 < l \<and> l < 27 / 50"
proof -
  define A :: real where "A = sqrt ((19 / 4)\<^sup>2 + (9.2 / 2)\<^sup>2)"
  define C :: real where "C = sqrt ((19 / 2)\<^sup>2 + (9.2 / 2)\<^sup>2)"
  have A_pos: "0 \<le> A"
    by (simp add: A_def)
  have A_upper: "A < 6.62"
    unfolding A_def by (rule real_less_lsqrt) (simp_all add: power2_eq_square)
  have C_lower: "10.55 < C"
    unfolding C_def by (rule real_less_rsqrt) (simp add: power2_eq_square)
  then have C_pos: "0 < C"
    by simp
  have ear: "calculate_ear (generate_eye_points 320 240 19 9.2) = Inr ((A + 19 / 4) / (2 * C))"
    using C_pos by (simp add: calculate_ear_generated A_def C_def)
  have "(A + 19 / 4) / (2 * C) < 27 / 50"
    using A_upper C_lower C_pos by (simp add: field_simps)
  moreover have "0 < (A + 19 / 4) / (2 * C)"
    using A_pos C_pos by (simp add: add_nonneg_pos)
  ultimately show ?thesis
    using ear by blast
qed

lemma asymmetric_right_ear:
  "\<exists>r. calculate_ear (generate_eye_points 380 240 21 10.8) = Inr r \<and> 27 / 50 < r"
proof -
  define A :: real where "A = sqrt ((21 / 4)\<^sup>2 + (10.8 / 2)\<^sup>2)"
  define C :: real where "C = sqrt ((21 / 2)\<^sup>2 + (10.8 / 2)\<^sup>2)"
  have A_lower: "7.53 < A"
    unfolding A_def by (rule real_less_rsqrt) (simp add: power2_eq_square)
  have C_upper: "C < 11.81"
    unfolding C_def by (rule real_less_lsqrt) (simp_all add: power2_eq_square)
  have C_pos: "0 < C"
    unfolding C_def by (simp add: power2_eq_square)
  have ear: "calculate_ear (generate_eye_points 380 240 21 10.8) = Inr ((A + 21 / 4) / (2 * C))"
    using C_pos by (simp add: calculate_ear_generated A_def C_def)
  have "27 / 50 < (A + 21 / 4) / (2 * C)"
    using A_lower C_upper C_pos by (simp add: field_simps)
  then show ?thesis
    using ear by blast
qed

text \<open>
  Claim C4. The ratio of the left eye, generated at (320, 240) with width 19.0 and
  height 9.2, and the ratio of the right eye, generated at (380, 240) with width 21.0
  and height 10.8, are both computed, and their difference is more than 0.
\<close>

theorem asymmetric_eyes_differ:
  "\<exists>l r. calculate_ear (generate_eye_points 320 240 19 9.2) = Inr l \<and>
         calculate_ear (generate_eye_points 380 240 21 10.8) = Inr r \<and>
         0 < \<bar>l - r\<bar>"
proof -
  obtain l where l: "calculate_ear (generate_eye_points 320 240 19 9.2) = Inr l" "l < 27 / 50"
    using asymmetric_left_ear by blast
  obtain r where r: "calculate_ear (generate_eye_points 380 240 21 10.8) = Inr r" "27 / 50 < r"
    using asymmetric_right_ear by blast
  have "0 < \<bar>l - r\<bar>"
    using l(2) r(2) by simp
  with l(1) r(1) show ?thesis by blast
qed

text \<open>What the two simulations print.\<close>

lemma simulate_new_behavior_reports_difference:
  "\<exists>rep. simulate_new_behavior = Inr rep \<and> new_are_different rep \<and> 0 < new_difference rep"
proof -
  obtain l where l: "calculate_ear (generate_eye_points 320 240 19 9.2) = Inr l" "0 < l" "l < 27 / 50"
    using asymmetric_left_ear by blast
  obtain r where r: "calculate_ear (generate_eye_points 380 240 21 10.8) = Inr r" "27 / 50 < r"
    using asymmetric_right_ear by blast
  have w: "(20::real) * 0.95 = 19" "(10::real) * 0.92 = 9.2" "(20::real) * 1.05 = 21"
    "(10::real) * 1.08 = 10.8"
    by simp_all
  have "l + r \<noteq> 0" "l \<noteq> r"
    using l(2,3) r(2) by simp_all
  with l(1) r(1) show ?thesis
    unfolding simulate_new_behavior_def w
    by (simp add: calculate_percentage_difference_def truediv_def)
qed

lemma simulate_old_behavior_reports_equality:
  "\<exists>rep. simulate_old_behavior = Inr rep \<and> old_are_equal rep \<and> old_difference rep = 0"
  by (simp add: simulate_old_behavior_def calculate_ear_generated)

section \<open>The order of the generated points\<close>

lemma sqrt_125_less_20: "sqrt 125 < 20"
  by (rule real_less_lsqrt) simp_all

text \<open>
  Claim C7 says that in a generated eye the points 0 and 3 are the two eye corners, so
  that they lie at the same height and the reference distance \<open>C\<close> is the eye width; the
  documentation of \<open>calculate_ear\<close> calls \<open>C\<close> horizontal as well. The generator lists
  the right corner at index 1 and the bottom centre at index 3. For the eye of
  \<open>simulate_old_behavior\<close> (centre (320, 240), width 20, height 10) points 0 and 3 are
  (310, 240) and (320, 245), their distance is \<open>sqrt 125\<close>, less than the width 20,
  and the corner-to-corner span 20 is the distance of points 0 and 1.
\<close>

theorem generated_reference_distance_not_horizontal:
  "generate_eye_points 320 240 20 10 ! 0 = [310, 240] \<and>
   generate_eye_points 320 240 20 10 ! 3 = [320, 245] \<and>
   calculate_distance (generate_eye_points 320 240 20 10 ! 0)
     (generate_eye_points 320 240 20 10 ! 3) = Inr (sqrt 125) \<and>
   sqrt 125 < 20 \<and>
   generate_eye_points 320 240 20 10 ! 1 = [330, 240] \<and>
   calculate_distance (generate_eye_points 320 240 20 10 ! 0)
     (generate_eye_points 320 240 20 10 ! 1) = Inr 20"
  by (simp add: generate_eye_points_def calculate_distance_2d is_2d_def euclidean_distance_def
      sqrt_125_less_20)

text \<open>The same for every generated eye of nonzero height.\<close>

lemma generated_corners_not_level:
  assumes "h \<noteq> 0"
  shows "generate_eye_points cx cy w h ! 0 ! 1 \<noteq> generate_eye_points cx cy w h ! 3 ! 1"
  using assms by (simp add: generate_eye_points_def)

section \<open>The percentage difference\<close>

text \<open>
  Claim C9. The percentage difference of a nonzero number with itself is computed
  without error and is 0. (Over the reals \<open>x + x \<noteq> 0\<close> is the same condition as
  \<open>x \<noteq> 0\<close>.)
\<close>

theorem percentage_difference_same:
  assumes "x \<noteq> 0"
  shows "calculate_percentage_difference x x = Inr 0"
  using assms by (simp add: calculate_percentage_difference_def truediv_def)

theorem percentage_difference_same_witness:
  "(3::real) \<noteq> 0 \<and> calculate_percentage_difference 3 3 = Inr 0"
  using percentage_difference_same [of 3] by simp

section \<open>Rounding to a double\<close>

lemma round_half_even_unique:
  assumes "\<bar>x - of_int n\<bar> < 1 / 2"
  shows "round_half_even x = n"
proof -
  consider "of_int n \<le> x" | "x < of_int n" by linarith
  then show ?thesis
  proof cases
    case 1
    then have "\<lfloor>x\<rfloor> = n" using assms by (intro floor_unique) linarith+
    then show ?thesis using assms 1 by (simp add: round_half_even_def Let_def)
  next
    case 2
    have m: "real_of_int (n - 1) = of_int n - 1" by simp
    have "real_of_int (n - 1) \<le> x" "x < real_of_int (n - 1) + 1"
      unfolding m using assms 2 by linarith+
    then have f: "\<lfloor>x\<rfloor> = n - 1" by (rule floor_unique)
    have "1 / 2 < x - of_int (n - 1)" unfolding m using assms 2 by linarith
    then show ?thesis using f by (simp add: round_half_even_def Let_def)
  qed
qed

lemma round_half_even_of_int [simp]: "round_half_even (of_int n) = n"
  by (rule round_half_even_unique) simp

lemma round_half_even_error: "\<bar>of_int (round_half_even x) - x\<bar> \<le> 1 / 2"
proof -
  have "of_int \<lfloor>x\<rfloor> \<le> x" "x < of_int \<lfloor>x\<rfloor> + 1" by linarith+
  then show ?thesis
    by (auto simp add: round_half_even_def Let_def)
qed

lemma round_half_even_nonneg: "0 \<le> x \<Longrightarrow> 0 \<le> round_half_even x"
proof -
  assume "0 \<le> x"
  then have "0 \<le> \<lfloor>x\<rfloor>" by simp
  then show ?thesis by (auto simp add: round_half_even_def Let_def)
qed

lemma round_half_even_ge_floor: "\<lfloor>x\<rfloor> \<le> round_half_even x"
  by (auto simp add: round_half_even_def Let_def)

lemma floor_log2_unique:
  assumes "2 powi k \<le> x" and "x < 2 powi (k + 1)"
  shows "\<lfloor>log 2 x\<rfloor> = k"
proof -
  have pos: "0 < x" using assms(1) by (smt (verit) zero_less_power_int)
  have "(2::real) powr (of_int k) = 2 powi k"
    by (simp add: powr_real_of_int')
  moreover have "(2::real) powr (of_int k + 1) = 2 powi (k + 1)"
    using powr_real_of_int' [of 2 "k + 1"] by simp
  ultimately show ?thesis
    using assms pos by (subst floor_log_eq_powr_iff) simp_all
qed

lemma ulp_exponent_eq:
  assumes "2 powi k \<le> \<bar>x\<bar>" and "\<bar>x\<bar> < 2 powi (k + 1)"
  shows "ulp_exponent x = max k (- 1022) - 52"
  using floor_log2_unique [OF assms] by (simp add: ulp_exponent_def)

lemma floor_log2_bounds:
  assumes "0 < x"
  shows "2 powi \<lfloor>log 2 x\<rfloor> \<le> x" and "x < 2 powi (\<lfloor>log 2 x\<rfloor> + 1)"
proof -
  have a: "(2::real) powr (of_int \<lfloor>log 2 x\<rfloor>) \<le> x \<and> x < 2 powr (of_int \<lfloor>log 2 x\<rfloor> + 1)"
    using assms floor_log_eq_powr_iff [of x 2 "\<lfloor>log 2 x\<rfloor>"] by simp
  have b: "(2::real) powr (of_int \<lfloor>log 2 x\<rfloor> + 1) = 2 powi (\<lfloor>log 2 x\<rfloor> + 1)"
    using powr_real_of_int' [of 2 "\<lfloor>log 2 x\<rfloor> + 1"] by simp
  show "2 powi \<lfloor>log 2 x\<rfloor> \<le> x"
    using a by (simp add: powr_real_of_int')
  show "x < 2 powi (\<lfloor>log 2 x\<rfloor> + 1)"
    using a unfolding b by simp
qed

lemma round_to_double_zero [simp]: "round_to_double 0 = 0"
  using round_half_even_of_int [of 0] by (simp add: round_to_double_def)

lemma rnd_zero [simp]: "rnd 0 = Num 0"
  by (simp add: rnd_def)

lemma round_to_double_nonneg: "0 \<le> x \<Longrightarrow> 0 \<le> round_to_double x"
  by (simp add: round_to_double_def round_half_even_nonneg)

lemma rnd_nonneg:
  assumes "0 \<le> x"
  shows "rnd x = PosInf \<or> (\<exists>y\<ge>0. rnd x = Num y)"
  using round_to_double_nonneg [OF assms]
  by (auto simp add: rnd_def Let_def)

lemma two_powi_less_iff: "(2::real) powi a < 2 powi b \<longleftrightarrow> a < b"
proof
  assume "(2::real) powi a < 2 powi b"
  show "a < b"
  proof (rule ccontr)
    assume "\<not> a < b"
    then have "(2::real) powi b \<le> 2 powi a"
      by (intro power_int_increasing) simp_all
    with \<open>(2::real) powi a < 2 powi b\<close> show False by simp
  qed
next
  assume "a < b"
  then show "(2::real) powi a < 2 powi b"
    by (intro power_int_strict_increasing) simp_all
qed

lemma two_powi_le_iff: "(2::real) powi a \<le> 2 powi b \<longleftrightarrow> a \<le> b"
  using two_powi_less_iff [of b a] by (simp add: not_less [symmetric])

lemma round_to_double_eval:
  assumes "2 powi k \<le> \<bar>x\<bar>" and "\<bar>x\<bar> < 2 powi (k + 1)" and "e = max k (- 1022) - 52"
    and "\<bar>x / 2 powi e - of_int n\<bar> < 1 / 2"
  shows "round_to_double x = of_int n * 2 powi e"
proof -
  have "ulp_exponent x = e"
    using ulp_exponent_eq [OF assms(1,2)] assms(3) by simp
  then show ?thesis
    using round_half_even_unique [OF assms(4)] by (simp add: round_to_double_def)
qed

lemma ulp_exponent_lower: "- 1074 \<le> ulp_exponent x"
  by (simp add: ulp_exponent_def)

lemma round_to_double_exact:
  assumes "x = of_int m * 2 powi j" and "\<bar>m\<bar> < 2 ^ 53" and "- 1074 \<le> j"
  shows "round_to_double x = x"
proof (cases "m = 0")
  case True
  then show ?thesis using assms(1) by simp
next
  case False
  define L where "L = \<lfloor>log 2 \<bar>x\<bar>\<rfloor>"
  define e where "e = ulp_exponent x"
  have xpos: "0 < \<bar>x\<bar>"
    using False assms(1) by simp
  have "2 powi L \<le> \<bar>x\<bar>"
    unfolding L_def using floor_log2_bounds(1) [OF xpos] .
  also have "\<bar>x\<bar> = of_int \<bar>m\<bar> * 2 powi j"
    using assms(1) by (simp add: abs_mult)
  also have "\<dots> < 2 ^ 53 * 2 powi j"
  proof -
    have "real_of_int \<bar>m\<bar> < 2 ^ 53"
      using assms(2) by (metis of_int_less_iff of_int_numeral of_int_power)
    then show ?thesis by (simp add: mult_strict_right_mono)
  qed
  also have "\<dots> = 2 powi (j + 53)"
    by (simp add: power_int_add)
  finally have "(2::real) powi L < 2 powi (j + 53)" .
  then have "L < j + 53"
    unfolding two_powi_less_iff .
  then have ej: "e \<le> j"
    using assms(3) by (simp add: e_def ulp_exponent_def L_def)
  define d where "d = nat (j - e)"
  have j: "j = e + int d"
    using ej by (simp add: d_def)
  have "x / 2 powi e = of_int m * 2 ^ d"
    unfolding assms(1) j by (simp add: power_int_add)
  also have "\<dots> = of_int (m * 2 ^ d)"
    by simp
  finally have "round_half_even (x / 2 powi e) = m * 2 ^ d"
    by (simp only: round_half_even_of_int)
  then have "round_to_double x = of_int (m * 2 ^ d) * 2 powi e"
    by (simp add: round_to_double_def e_def)
  also have "\<dots> = of_int m * 2 powi (e + int d)"
    by (simp add: power_int_add)
  finally show ?thesis
    using assms(1) j by simp
qed

lemma rnd_exact:
  assumes "x = of_int m * 2 powi j" and "\<bar>m\<bar> < 2 ^ 53" and "- 1074 \<le> j" and "\<bar>x\<bar> < 2 ^ 1024"
  shows "rnd x = Num x"
  using round_to_double_exact [OF assms(1-3)] assms(4)
  by (simp add: rnd_def abs_less_iff)

lemma round_to_double_overflow:
  assumes "2 ^ 1024 \<le> x"
  shows "2 ^ 1024 \<le> round_to_double x"
proof -
  define L where "L = \<lfloor>log 2 \<bar>x\<bar>\<rfloor>"
  have xpos: "0 < \<bar>x\<bar>" and ax: "\<bar>x\<bar> = x"
    using assms by (smt (verit) zero_less_power)+
  have lo: "2 powi L \<le> x" and hi: "x < 2 powi (L + 1)"
    using floor_log2_bounds [OF xpos] by (simp_all add: L_def ax)
  have "(2::real) powi 1024 < 2 powi (L + 1)"
    using assms hi by simp
  then have "1024 < L + 1"
    unfolding two_powi_less_iff .
  then have L: "1024 \<le> L"
    by simp
  then have e: "ulp_exponent x = L - 52"
    by (simp add: ulp_exponent_def L_def)
  have "(2::real) ^ 52 = 2 powi L / 2 powi (L - 52)"
    by (simp add: power_int_diff)
  also have "\<dots> \<le> x / 2 powi (L - 52)"
    using lo by (simp add: divide_right_mono)
  finally have "(2::int) ^ 52 \<le> \<lfloor>x / 2 powi (L - 52)\<rfloor>"
    by (simp add: le_floor_iff)
  then have "(2::int) ^ 52 \<le> round_half_even (x / 2 powi (L - 52))"
    using round_half_even_ge_floor [of "x / 2 powi (L - 52)"] by linarith
  then have "(2::real) ^ 52 \<le> of_int (round_half_even (x / 2 powi (L - 52)))"
    by (metis of_int_le_iff of_int_numeral of_int_power)
  then have "2 ^ 52 * 2 powi (L - 52) \<le> round_to_double x"
    by (simp add: round_to_double_def e mult_right_mono)
  moreover have "(2::real) ^ 52 * 2 powi (L - 52) = 2 powi L"
    by (simp add: power_int_diff)
  moreover have "(2::real) powi 1024 \<le> 2 powi L"
    unfolding two_powi_le_iff using L .
  ultimately show ?thesis by simp
qed

lemma rnd_overflow: "2 ^ 1024 \<le> x \<Longrightarrow> rnd x = PosInf"
  using round_to_double_overflow [of x] by (simp add: rnd_def)

lemma round_to_double_error:
  assumes "2 powi (- 1022) \<le> \<bar>x\<bar>"
  shows "\<bar>round_to_double x - x\<bar> \<le> 2 powi (- 53) * \<bar>x\<bar>"
proof -
  define L where "L = \<lfloor>log 2 \<bar>x\<bar>\<rfloor>"
  have xpos: "0 < \<bar>x\<bar>"
    using assms by (smt (verit) zero_less_power_int)
  have lo: "2 powi L \<le> \<bar>x\<bar>" and hi: "\<bar>x\<bar> < 2 powi (L + 1)"
    using floor_log2_bounds [OF xpos] by (simp_all add: L_def)
  have "(2::real) powi (- 1022) < 2 powi (L + 1)"
    using assms hi by linarith
  then have "- 1022 < L + 1"
    unfolding two_powi_less_iff .
  then have "- 1022 \<le> L"
    by simp
  then have e: "ulp_exponent x = L - 52"
    by (simp add: ulp_exponent_def L_def)
  define u :: real where "u = 2 powi (L - 52)"
  have upos: "0 < u" by (simp add: u_def)
  have "round_to_double x - x = (of_int (round_half_even (x / u)) - x / u) * u"
    using upos by (simp add: round_to_double_def e u_def field_simps)
  then have "\<bar>round_to_double x - x\<bar> = \<bar>of_int (round_half_even (x / u)) - x / u\<bar> * u"
    using upos by (simp add: abs_mult)
  also have "\<dots> \<le> 1 / 2 * u"
    using round_half_even_error [of "x / u"] upos by (intro mult_right_mono) simp_all
  also have "\<dots> = 2 powi (- 53) * 2 powi L"
    by (simp add: u_def power_int_diff power_int_minus field_simps)
  also have "\<dots> \<le> 2 powi (- 53) * \<bar>x\<bar>"
    using lo by (intro mult_left_mono) simp_all
  finally show ?thesis .
qed

lemma finite_pointE:
  assumes "finite_point q"
  obtains x y where "q = [Num x, Num y]"
proof -
  from assms obtain a b where q: "q = [a, b]"
    by (auto simp add: finite_point_def length_Suc_conv numeral_2_eq_2)
  with assms obtain x y where "a = Num x" "b = Num y"
    by (cases a; cases b) (simp_all add: finite_point_def)
  with q that show ?thesis by simp
qed

lemma rnd_not_NaN [simp]: "rnd x \<noteq> NaN"
  by (simp add: rnd_def Let_def)

lemma not_negative_rnd: "0 \<le> x \<Longrightarrow> not_negative (rnd x)"
  using rnd_nonneg [of x] by auto

lemma float_pow_2:
  assumes "v \<noteq> NaN"
  shows "float_pow v 2 = Inl OverflowError \<or> (\<exists>s. float_pow v 2 = Inr s \<and> not_negative s)"
proof (cases v)
  case (Num x)
  have "not_negative (rnd (\<bar>x\<bar> powr 2))"
    by (rule not_negative_rnd) simp
  then show ?thesis
    using Num by (cases "rnd (\<bar>x\<bar> powr 2)") (simp_all add: float_pow_def is_odd_integer_def)
qed (use assms in \<open>simp_all add: float_pow_def is_odd_integer_def\<close>)

lemma float_pow_half:
  assumes "not_negative v"
  shows "float_pow v 0.5 = Inl OverflowError \<or> (\<exists>s. float_pow v 0.5 = Inr s \<and> not_negative s)"
proof (cases v)
  case (Num x)
  have "not_negative (rnd (\<bar>x\<bar> powr (1 / 2)))"
    by (rule not_negative_rnd) simp
  then show ?thesis
    using Num assms by (cases "rnd (\<bar>x\<bar> powr (1 / 2))") (simp_all add: float_pow_def is_odd_integer_def)
qed (use assms in \<open>simp_all add: float_pow_def\<close>)

lemma not_negative_float_add:
  assumes "not_negative a" and "not_negative b"
  shows "not_negative (float_add a b)"
  using assms by (cases a; cases b) (simp_all add: not_negative_rnd)

lemma float_sub_finite: "float_sub (Num x) (Num y) \<noteq> NaN"
  by simp

lemma calculate_distance_f64_finite:
  assumes "finite_point p1" and "finite_point p2"
  shows "calculate_distance_f64 p1 p2 = Inl OverflowError \<or>
         (\<exists>d. calculate_distance_f64 p1 p2 = Inr d \<and> not_negative d)"
proof -
  obtain a0 a1 where p1: "p1 = [Num a0, Num a1]"
    using assms(1) by (rule finite_pointE)
  obtain b0 b1 where p2: "p2 = [Num b0, Num b1]"
    using assms(2) by (rule finite_pointE)
  consider "float_pow (float_sub (Num a0) (Num b0)) 2 = Inl OverflowError"
    | s0 where "float_pow (float_sub (Num a0) (Num b0)) 2 = Inr s0" "not_negative s0"
    using float_pow_2 [OF float_sub_finite] by blast
  then show ?thesis
  proof cases
    case 1
    then show ?thesis by (simp add: calculate_distance_f64_def p1 p2 getitem_def)
  next
    case s0: 2
    consider "float_pow (float_sub (Num a1) (Num b1)) 2 = Inl OverflowError"
      | s1 where "float_pow (float_sub (Num a1) (Num b1)) 2 = Inr s1" "not_negative s1"
      using float_pow_2 [OF float_sub_finite] by blast
    then show ?thesis
    proof cases
      case 1
      then show ?thesis using s0 by (simp add: calculate_distance_f64_def p1 p2 getitem_def)
    next
      case s1: 2
      have "not_negative (float_add s0 s1)"
        using s0(2) s1(2) by (rule not_negative_float_add)
      from float_pow_half [OF this] show ?thesis
        using s0 s1 by (simp add: calculate_distance_f64_def p1 p2 getitem_def)
    qed
  qed
qed

lemma calculate_distance_f64_same:
  assumes "finite_point q"
  shows "calculate_distance_f64 q q = Inr (Num 0)"
proof -
  obtain x y where "q = [Num x, Num y]"
    using assms by (rule finite_pointE)
  then show ?thesis
    by (simp add: calculate_distance_f64_def getitem_def float_pow_def)
qed

lemma rnd_of_int:
  assumes "\<bar>n\<bar> < 2 ^ 53"
  shows "rnd (of_int n) = Num (of_int n)"
proof -
  have "\<bar>real_of_int n\<bar> < 2 ^ 53"
    using assms by (metis of_int_abs of_int_less_iff of_int_numeral of_int_power)
  then have "\<bar>real_of_int n\<bar> < 2 ^ 1024"
    by (rule less_trans) simp
  then show ?thesis
    using assms by (intro rnd_exact [where m = n and j = 0]) simp_all
qed

lemma rnd_numeral:
  "(numeral k :: int) < 2 ^ 53 \<Longrightarrow> rnd (numeral k) = Num (numeral k)"
  "(numeral k :: int) < 2 ^ 53 \<Longrightarrow> rnd (- numeral k) = Num (- numeral k)"
  "rnd 1 = Num 1"
  using rnd_of_int [of "numeral k"] rnd_of_int [of "- numeral k"] rnd_of_int [of 1]
  by simp_all

lemma rnd_power_of_two:
  assumes "- 1074 \<le> j" and "j < 1024"
  shows "rnd (2 powi j) = Num (2 powi j)" and "rnd (- (2 powi j)) = Num (- (2 powi j))"
proof -
  have "(2::real) powi j < 2 powi 1024"
    unfolding two_powi_less_iff using assms(2) .
  then have b: "\<bar>(2::real) powi j\<bar> < 2 ^ 1024"
    by simp
  show "rnd (2 powi j) = Num (2 powi j)"
    using assms(1) b by (intro rnd_exact [where m = 1 and j = j]) simp_all
  show "rnd (- (2 powi j)) = Num (- (2 powi j))"
    using assms(1) b by (intro rnd_exact [where m = "- 1" and j = j]) simp_all
qed


lemma float_pow_2_overflow:
  assumes "2 ^ 512 \<le> \<bar>x\<bar>"
  shows "float_pow (Num x) 2 = Inl OverflowError"
proof -
  have x0: "x \<noteq> 0" using assms by auto
  have "(2::real) ^ 1024 = (2 ^ 512)\<^sup>2"
    by simp
  also have "\<dots> \<le> \<bar>x\<bar>\<^sup>2"
    using assms by (intro power_mono) simp_all
  finally have "2 ^ 1024 \<le> \<bar>x\<bar> powr 2"
    using x0 by simp
  then have "rnd (\<bar>x\<bar> powr 2) = PosInf"
    by (rule rnd_overflow)
  then show ?thesis
    using x0 by (simp add: float_pow_def)
qed


lemma float_pow_2_exact:
  assumes "x\<^sup>2 = of_int n" and "\<bar>n\<bar> < 2 ^ 53"
  shows "float_pow (Num x) 2 = Inr (Num (of_int n))"
proof (cases "x = 0")
  case True
  then show ?thesis using assms(1) by (simp add: float_pow_def)
next
  case False
  have "\<bar>x\<bar> powr 2 = of_int n"
    using False assms(1) by simp
  then show ?thesis
    using False rnd_of_int [OF assms(2)] by (simp add: float_pow_def is_odd_integer_def)
qed

lemma float_pow_half_exact:
  assumes "0 \<le> y" and "y\<^sup>2 = x" and "rnd y = Num y"
  shows "float_pow (Num x) 0.5 = Inr (Num y)"
proof (cases "x = 0")
  case True
  then show ?thesis using assms(2) by (simp add: float_pow_def)
next
  case False
  have "0 < x" using assms(1,2) False by (metis zero_le_power2 less_eq_real_def)
  have "sqrt x = y"
    using assms(1,2) by (simp add: real_sqrt_unique)
  then have "\<bar>x\<bar> powr (1 / 2) = y"
    using \<open>0 < x\<close> by (simp add: powr_half_sqrt)
  then show ?thesis
    using False \<open>0 < x\<close> assms(3) by (simp add: float_pow_def)
qed

lemma finite_point_nth:
  assumes "length p = 6" and "\<forall>q\<in>set p. finite_point q"
  shows "finite_point (p ! 0)" "finite_point (p ! 1)" "finite_point (p ! 2)"
    "finite_point (p ! 3)" "finite_point (p ! 4)" "finite_point (p ! 5)"
  using assms by simp_all

lemma calculate_ear_f64_six:
  assumes "6 \<le> length p"
  shows "calculate_ear_f64 p =
     (case calculate_distance_f64 (p ! 1) (p ! 5) of Inl e \<Rightarrow> Inl e | Inr A \<Rightarrow>
      case calculate_distance_f64 (p ! 2) (p ! 4) of Inl e \<Rightarrow> Inl e | Inr B \<Rightarrow>
      case calculate_distance_f64 (p ! 0) (p ! 3) of Inl e \<Rightarrow> Inl e | Inr C \<Rightarrow>
        float_truediv (float_add A B) (float_mul (Num 2) C))"
proof -
  have ne: "p \<noteq> []" using assms by auto
  have l: "1 < length p" "2 < length p" "3 < length p" "4 < length p" "5 < length p"
    using assms by auto
  show ?thesis
    using ne l by (simp add: calculate_ear_f64_def getitem_def split: sum.splits)
qed



lemma example_distances_f64:
  "calculate_distance_f64 [Num 1, Num 1] [Num 1, Num 3] = Inr (Num 2)"
  "calculate_distance_f64 [Num 2, Num 1] [Num 2, Num 3] = Inr (Num 2)"
  "calculate_distance_f64 [Num 0, Num 0] [Num 3, Num 4] = Inr (Num 5)"
proof -
  have sq: "float_pow (Num 0) 2 = Inr (Num 0)" "float_pow (Num (- 2)) 2 = Inr (Num 4)"
    "float_pow (Num (- 3)) 2 = Inr (Num 9)" "float_pow (Num (- 4)) 2 = Inr (Num 16)"
    using float_pow_2_exact [of 0 0] float_pow_2_exact [of "- 2" 4]
      float_pow_2_exact [of "- 3" 9] float_pow_2_exact [of "- 4" 16]
    by simp_all
  have rt: "float_pow (Num 4) 0.5 = Inr (Num 2)" "float_pow (Num 25) 0.5 = Inr (Num 5)"
    using float_pow_half_exact [of 2 4] float_pow_half_exact [of 5 25]
    by (simp_all add: rnd_numeral)
  show "calculate_distance_f64 [Num 1, Num 1] [Num 1, Num 3] = Inr (Num 2)"
    "calculate_distance_f64 [Num 2, Num 1] [Num 2, Num 3] = Inr (Num 2)"
    "calculate_distance_f64 [Num 0, Num 0] [Num 3, Num 4] = Inr (Num 5)"
    using sq rt by (simp_all add: calculate_distance_f64_def getitem_def rnd_numeral)
qed

text \<open>
  Claim C2, amended. When points 0 and 3 of six finite planar points coincide,
  \<open>calculate_ear\<close> returns no number: the computed \<open>C\<close> is zero and the division raises
  ZeroDivisionError, unless the distance \<open>A\<close> or the distance \<open>B\<close> has raised
  OverflowError before.
\<close>

theorem calculate_ear_f64_degenerate:
  assumes "length p = 6" and "\<forall>q\<in>set p. finite_point q" and "p ! 0 = p ! 3"
  shows "calculate_ear_f64 p =
     (if calculate_distance_f64 (p ! 1) (p ! 5) = Inl OverflowError \<or>
         calculate_distance_f64 (p ! 2) (p ! 4) = Inl OverflowError
      then Inl OverflowError else Inl ZeroDivisionError)"
proof -
  note f = finite_point_nth [OF assms(1,2)]
  have C: "calculate_distance_f64 (p ! 0) (p ! 3) = Inr (Num 0)"
    using calculate_distance_f64_same [OF f(1)] assms(3) by simp
  have len: "6 \<le> length p"
    using assms(1) by simp
  from calculate_distance_f64_finite [OF f(2) f(6)] calculate_distance_f64_finite [OF f(3) f(5)]
  show ?thesis
    by (auto simp add: calculate_ear_f64_six [OF len] C float_truediv_def)
qed

theorem calculate_ear_f64_degenerate_witness:
  "length [[Num 1, Num 1], [Num 1, Num 1], [Num 2, Num 1], [Num 1, Num 1], [Num 2, Num 3],
           [Num 1, Num 3]] = 6 \<and>
   list_all finite_point [[Num 1, Num 1], [Num 1, Num 1], [Num 2, Num 1], [Num 1, Num 1],
                          [Num 2, Num 3], [Num 1, Num 3]] \<and>
   calculate_ear_f64 [[Num 1, Num 1], [Num 1, Num 1], [Num 2, Num 1], [Num 1, Num 1],
                      [Num 2, Num 3], [Num 1, Num 3]] = Inl ZeroDivisionError"
  using calculate_ear_f64_degenerate
    [of "[[Num 1, Num 1], [Num 1, Num 1], [Num 2, Num 1], [Num 1, Num 1], [Num 2, Num 3],
          [Num 1, Num 3]]"]
  by (simp add: finite_point_def example_distances_f64)

text \<open>
  Claim C2 names one error for every six-point set whose points 0 and 3 coincide. On the
  set below the square of \<open>2 ^ 600\<close> leaves the range of the doubles while \<open>A\<close> is
  computed, and OverflowError is raised before the division is reached.
\<close>

theorem calculate_ear_f64_degenerate_overflow_counterexample:
  "[[Num 1, Num 1], [Num (2 ^ 600), Num 0], [Num 2, Num 1], [Num 1, Num 1], [Num 2, Num 3],
    [Num 0, Num 0]] ! 0 =
   [[Num 1, Num 1], [Num (2 ^ 600), Num 0], [Num 2, Num 1], [Num 1, Num 1], [Num 2, Num 3],
    [Num 0, Num 0]] ! 3 \<and>
   calculate_ear_f64 [[Num 1, Num 1], [Num (2 ^ 600), Num 0], [Num 2, Num 1], [Num 1, Num 1],
                      [Num 2, Num 3], [Num 0, Num 0]] = Inl OverflowError"
proof -
  have "rnd (2 powi 600) = Num (2 powi 600)"
    by (rule rnd_power_of_two) simp_all
  moreover have "float_pow (Num (2 powi 600)) 2 = Inl OverflowError"
    by (rule float_pow_2_overflow) simp
  ultimately have "calculate_distance_f64 [Num (2 ^ 600), Num 0] [Num 0, Num 0] = Inl OverflowError"
    by (simp add: calculate_distance_f64_def getitem_def)
  then show ?thesis
    by (simp add: calculate_ear_f64_def getitem_def)
qed







lemma round_half_even_minus: "round_half_even (- x) = - round_half_even x"
proof (cases "\<bar>x - of_int (round_half_even x)\<bar> < 1 / 2")
  case True
  then have "\<bar>- x - of_int (- round_half_even x)\<bar> < 1 / 2"
    by (simp add: abs_if split: if_splits)
  then show ?thesis
    by (rule round_half_even_unique)
next
  case False
  define f where "f = \<lfloor>x\<rfloor>"
  have fl: "of_int f \<le> x" "x < of_int f + 1"
    unfolding f_def by linarith+
  have tie: "x = of_int f + 1 / 2"
  proof (rule ccontr)
    assume ne: "x \<noteq> of_int f + 1 / 2"
    have "\<bar>x - of_int (round_half_even x)\<bar> < 1 / 2"
      using fl ne by (auto simp add: round_half_even_def Let_def f_def [symmetric])
    with False show False by simp
  qed
  have m: "- x = of_int (- f - 1) + 1 / 2"
    using tie by simp
  have fm: "\<lfloor>- x\<rfloor> = - f - 1"
    unfolding m by (rule floor_unique) simp_all
  have a: "round_half_even x = (if even f then f else f + 1)"
    using tie by (simp add: round_half_even_def Let_def f_def [symmetric])
  have "- x - of_int (- f - 1) = 1 / 2"
    using m by simp
  then have b: "round_half_even (- x) = (if even (- f - 1) then - f - 1 else - f)"
    unfolding round_half_even_def Let_def fm by simp
  show ?thesis
    unfolding a b by simp
qed

lemma ulp_exponent_minus [simp]: "ulp_exponent (- x) = ulp_exponent x"
  by (simp add: ulp_exponent_def)

lemma round_to_double_minus: "round_to_double (- x) = - round_to_double x"
  by (simp add: round_to_double_def round_half_even_minus)

lemma rnd_minus: "rnd (- x) = float_neg (rnd x)"
  by (auto simp add: rnd_def Let_def round_to_double_minus)

lemma is_double_minus: "is_double x \<Longrightarrow> is_double (- x)"
  by (simp add: is_double_def rnd_minus)

lemma is_double_zero [simp]: "is_double 0"
  by (simp add: is_double_def)

lemma calculate_distance_f64_differences:
  "calculate_distance_f64 [a0, a1] [b0, b1] =
     distance_of_differences (float_sub a0 b0) (float_sub a1 b1)"
  by (simp add: calculate_distance_f64_def distance_of_differences_def getitem_def
      split: sum.splits)

lemma generate_eye_points_f64_exact:
  assumes "is_double (w / 2)" and "is_double (w / 4)" and "is_double (h / 2)"
    and "is_double (cx - w / 2)" and "is_double (cx + w / 2)"
    and "is_double (cx - w / 4)" and "is_double (cx + w / 4)"
    and "is_double (cy - h / 2)" and "is_double (cy + h / 2)"
  shows "generate_eye_points_f64 (Num cx) (Num cy) (Num w) (Num h) =
     [[Num (cx - w / 2), Num cy],
      [Num (cx + w / 2), Num cy],
      [Num cx, Num (cy - h / 2)],
      [Num cx, Num (cy + h / 2)],
      [Num (cx - w / 4), Num (cy - h / 2)],
      [Num (cx + w / 4), Num (cy - h / 2)]]"
  using assms by (simp add: generate_eye_points_f64_def is_double_def)

lemma calculate_ear_f64_generated_exact:
  assumes "is_double (w / 2)" and "is_double (w / 4)" and "is_double (h / 2)"
    and "is_double (cx - w / 2)" and "is_double (cx + w / 2)"
    and "is_double (cx - w / 4)" and "is_double (cx + w / 4)"
    and "is_double (cy - h / 2)" and "is_double (cy + h / 2)"
  shows "calculate_ear_f64 (generate_eye_points_f64 (Num cx) (Num cy) (Num w) (Num h)) =
     (case distance_of_differences (Num (w / 4)) (Num (h / 2)) of Inl e \<Rightarrow> Inl e | Inr A \<Rightarrow>
      case distance_of_differences (Num (w / 4)) (Num 0) of Inl e \<Rightarrow> Inl e | Inr B \<Rightarrow>
      case distance_of_differences (Num (- (w / 2))) (Num (- (h / 2))) of Inl e \<Rightarrow> Inl e | Inr C \<Rightarrow>
        float_truediv (float_add A B) (float_mul (Num 2) C))"
proof -
  have n: "rnd (- (w / 2)) = Num (- (w / 2))" "rnd (- (h / 2)) = Num (- (h / 2))"
    using is_double_minus [OF assms(1)] is_double_minus [OF assms(3)]
    by (simp_all add: is_double_def)
  have p: "rnd (w / 4) = Num (w / 4)" "rnd (h / 2) = Num (h / 2)"
    using assms(2,3) by (simp_all add: is_double_def)
  show ?thesis
    unfolding generate_eye_points_f64_exact [OF assms]
    by (simp add: calculate_ear_f64_six calculate_distance_f64_differences n p
        cong: sum.case_cong)
qed

text \<open>
  Claim C6, amended. When the generator adds its offsets without rounding (the halves and
  quarters of the sizes and the shifted coordinates are doubles, as they are for the
  integer centres and sizes of \<open>simulate_old_behavior\<close>), the ratio of the generated eye
  does not depend on the centre.
\<close>

theorem calculate_ear_f64_position_independent:
  assumes "is_double (w / 2)" and "is_double (w / 4)" and "is_double (h / 2)"
    and "is_double (cx1 - w / 2)" and "is_double (cx1 + w / 2)"
    and "is_double (cx1 - w / 4)" and "is_double (cx1 + w / 4)"
    and "is_double (cy1 - h / 2)" and "is_double (cy1 + h / 2)"
    and "is_double (cx2 - w / 2)" and "is_double (cx2 + w / 2)"
    and "is_double (cx2 - w / 4)" and "is_double (cx2 + w / 4)"
    and "is_double (cy2 - h / 2)" and "is_double (cy2 + h / 2)"
  shows "calculate_ear_f64 (generate_eye_points_f64 (Num cx1) (Num cy1) (Num w) (Num h)) =
         calculate_ear_f64 (generate_eye_points_f64 (Num cx2) (Num cy2) (Num w) (Num h))"
  unfolding calculate_ear_f64_generated_exact [OF assms(1-9)]
    calculate_ear_f64_generated_exact [OF assms(1-3) assms(10-15)] ..

lemma rnd_normal:
  assumes "2 powi (- 1022) \<le> \<bar>x\<bar>" and "\<bar>x\<bar> \<le> 2 ^ 1023"
  shows "\<exists>y. rnd x = Num y \<and> \<bar>y - x\<bar> \<le> 2 powi (- 53) * \<bar>x\<bar>"
proof -
  define y where "y = round_to_double x"
  have e: "\<bar>y - x\<bar> \<le> 2 powi (- 53) * \<bar>x\<bar>"
    unfolding y_def using assms(1) by (rule round_to_double_error)
  have "2 powi (- 53) * \<bar>x\<bar> \<le> 2 powi (- 53) * 2 ^ 1023"
    using assms(2) by (intro mult_left_mono) simp_all
  then have "\<bar>y\<bar> \<le> 2 ^ 1023 + 2 powi (- 53) * 2 ^ 1023"
    using e assms(2) by linarith
  also have "\<dots> < 2 ^ 1024"
    by simp
  finally have "\<bar>y\<bar> < 2 ^ 1024" .
  then have "rnd x = Num y"
    by (simp add: rnd_def y_def [symmetric] abs_less_iff)
  with e show ?thesis by blast
qed

lemma rnd_positive:
  assumes "2 powi (- 1022) \<le> x" and "x \<le> 2 ^ 1023"
  shows "\<exists>y. rnd x = Num y \<and> 0 < y"
proof -
  have xpos: "0 < x"
    using assms(1) by (smt (verit) zero_less_power_int)
  obtain y where y: "rnd x = Num y" "\<bar>y - x\<bar> \<le> 2 powi (- 53) * \<bar>x\<bar>"
    using rnd_normal [of x] assms xpos by auto
  have "2 powi (- 53) * \<bar>x\<bar> < 1 * \<bar>x\<bar>"
    using xpos by (intro mult_strict_right_mono) (simp_all add: power_int_minus)
  then have "0 < y"
    using y(2) xpos by linarith
  with y(1) show ?thesis by blast
qed

lemma rnd_near_2_60:
  assumes "\<bar>d\<bar> \<le> 16"
  shows "rnd (2 ^ 60 + d) = Num (2 ^ 60)"
proof -
  have "round_to_double (2 ^ 60 + d) = 2 ^ 60"
  proof (cases "0 \<le> d")
    case True
    have "round_to_double (2 ^ 60 + d) = of_int (2 ^ 52) * 2 powi 8"
      using True assms by (intro round_to_double_eval [where k = 60]) (simp_all add: field_simps)
    then show ?thesis by simp
  next
    case False
    have "round_to_double (2 ^ 60 + d) = of_int (2 ^ 53) * 2 powi 7"
      using False assms by (intro round_to_double_eval [where k = 59]) (simp_all add: field_simps)
    then show ?thesis by simp
  qed
  then show ?thesis
    by (simp add: rnd_def)
qed

theorem calculate_ear_f64_position_independent_witness:
  "is_double (20 / 2) \<and> is_double (20 / 4) \<and> is_double (10 / 2) \<and>
   is_double (320 - 20 / 2) \<and> is_double (320 + 20 / 2) \<and>
   is_double (320 - 20 / 4) \<and> is_double (320 + 20 / 4) \<and>
   is_double (240 - 10 / 2) \<and> is_double (240 + 10 / 2) \<and>
   is_double (380 - 20 / 2) \<and> is_double (380 + 20 / 2) \<and>
   is_double (380 - 20 / 4) \<and> is_double (380 + 20 / 4) \<and>
   calculate_ear_f64 (generate_eye_points_f64 (Num 320) (Num 240) (Num 20) (Num 10)) =
   calculate_ear_f64 (generate_eye_points_f64 (Num 380) (Num 240) (Num 20) (Num 10))"
  using calculate_ear_f64_position_independent [of 20 10 320 240 380 240]
  by (simp add: is_double_def rnd_numeral)

lemma sqrt_le_self:
  assumes "1 \<le> x"
  shows "sqrt x \<le> x"
proof -
  have "1 \<le> sqrt x"
    using assms by simp
  then have "sqrt x * 1 \<le> sqrt x * sqrt x"
    by (intro mult_left_mono) simp_all
  then show ?thesis
    using assms by simp
qed

lemma rnd_half_to_double:
  assumes "2 powi (- 1022) \<le> x" and "x \<le> 2 ^ 1023"
  shows "\<exists>y. rnd x = Num y \<and> x / 2 \<le> y \<and> y \<le> 2 * x"
proof -
  have xpos: "0 < x"
    using assms(1) by (smt (verit) zero_less_power_int)
  obtain y where y: "rnd x = Num y" "\<bar>y - x\<bar> \<le> 2 powi (- 53) * \<bar>x\<bar>"
    using rnd_normal [of x] assms xpos by auto
  have "(2::real) powi (- 53) \<le> 1 / 2"
    by (simp add: power_int_minus)
  then have "2 powi (- 53) * \<bar>x\<bar> \<le> 1 / 2 * \<bar>x\<bar>"
    by (intro mult_right_mono) simp_all
  then have "x / 2 \<le> y" "y \<le> 2 * x"
    using y(2) xpos by linarith+
  with y(1) show ?thesis by blast
qed

lemma float_pow_half_positive:
  assumes "1 \<le> x" and "x \<le> 2 ^ 1000"
  shows "\<exists>y. float_pow (Num x) 0.5 = Inr (Num y) \<and> 1 / 2 \<le> y \<and> y \<le> 2 * x"
proof -
  have s: "\<bar>x\<bar> powr (1 / 2) = sqrt x"
    using assms(1) by (simp add: powr_half_sqrt)
  have lo: "1 \<le> sqrt x"
    using assms(1) by simp
  have hi: "sqrt x \<le> x"
    using assms(1) by (rule sqrt_le_self)
  have "(2::real) powi (- 1022) \<le> 1"
    by (simp add: power_int_minus field_simps)
  then have a: "2 powi (- 1022) \<le> sqrt x"
    using lo by linarith
  have "(2::real) ^ 1000 \<le> 2 ^ 1023"
    by simp
  then have b: "sqrt x \<le> 2 ^ 1023"
    using hi assms(2) by linarith
  obtain y where y: "rnd (sqrt x) = Num y" "sqrt x / 2 \<le> y" "y \<le> 2 * sqrt x"
    using rnd_half_to_double [OF a b] by blast
  have "1 / 2 \<le> y" "y \<le> 2 * x"
    using y(2,3) lo hi by linarith+
  moreover have "float_pow (Num x) 0.5 = Inr (Num y)"
    using assms(1) y(1) s by (simp add: float_pow_def)
  ultimately show ?thesis by blast
qed

lemma generated_far_away:
  "generate_eye_points_f64 (Num (2 ^ 60)) (Num (2 ^ 60)) (Num 20) (Num 10) =
     [[Num (2 ^ 60), Num (2 ^ 60)], [Num (2 ^ 60), Num (2 ^ 60)], [Num (2 ^ 60), Num (2 ^ 60)],
      [Num (2 ^ 60), Num (2 ^ 60)], [Num (2 ^ 60), Num (2 ^ 60)], [Num (2 ^ 60), Num (2 ^ 60)]]"
proof -
  have r: "rnd (2 ^ 60 - 10) = Num (2 ^ 60)" "rnd (2 ^ 60 + 10) = Num (2 ^ 60)"
    "rnd (2 ^ 60 - 5) = Num (2 ^ 60)" "rnd (2 ^ 60 + 5) = Num (2 ^ 60)"
    using rnd_near_2_60 [of "- 10"] rnd_near_2_60 [of 10] rnd_near_2_60 [of "- 5"]
      rnd_near_2_60 [of 5]
    by simp_all
  show ?thesis
    using r by (simp add: generate_eye_points_f64_def rnd_numeral)
qed

lemma calculate_ear_f64_far_away:
  "calculate_ear_f64 (generate_eye_points_f64 (Num (2 ^ 60)) (Num (2 ^ 60)) (Num 20) (Num 10))
     = Inl ZeroDivisionError"
proof -
  have "finite_point [Num (2 ^ 60), Num (2 ^ 60)]"
    by (simp add: finite_point_def)
  then have "calculate_distance_f64 [Num (2 ^ 60), Num (2 ^ 60)] [Num (2 ^ 60), Num (2 ^ 60)]
      = Inr (Num 0)"
    by (rule calculate_distance_f64_same)
  then show ?thesis
    unfolding generated_far_away
    by (simp add: calculate_ear_f64_def getitem_def float_truediv_def)
qed

lemma calculate_ear_f64_script_eye:
  "\<exists>r. calculate_ear_f64 (generate_eye_points_f64 (Num 320) (Num 240) (Num 20) (Num 10)) = Inr r"
proof -
  have sq: "float_pow (Num 5) 2 = Inr (Num 25)" "float_pow (Num 0) 2 = Inr (Num 0)"
    "float_pow (Num (- 5)) 2 = Inr (Num 25)" "float_pow (Num (- 10)) 2 = Inr (Num 100)"
    using float_pow_2_exact [of 5 25] float_pow_2_exact [of 0 0]
      float_pow_2_exact [of "- 5" 25] float_pow_2_exact [of "- 10" 100]
    by simp_all
  obtain a where a: "float_pow (Num 50) 0.5 = Inr (Num a)"
    using float_pow_half_positive [of 50] by auto
  have b: "float_pow (Num 25) 0.5 = Inr (Num 5)"
    using float_pow_half_exact [of 5 25] by (simp add: rnd_numeral)
  obtain c where c: "float_pow (Num 125) 0.5 = Inr (Num c)" "1 / 2 \<le> c" "c \<le> 2 * 125"
    using float_pow_half_positive [of 125] by auto
  have "(2::real) powi (- 1022) \<le> 1"
    by (simp add: power_int_minus field_simps)
  then have "2 powi (- 1022) \<le> 2 * c"
    using c(2) by linarith
  moreover have "2 * c \<le> 2 ^ 1023"
    using c(3) by (rule order_trans [OF mult_left_mono]) simp_all
  ultimately obtain m where m: "rnd (2 * c) = Num m" "2 * c / 2 \<le> m"
    using rnd_half_to_double [of "2 * c"] by blast
  have m0: "m \<noteq> 0"
    using m(2) c(2) by simp
  have A: "distance_of_differences (Num 5) (Num 5) = Inr (Num a)"
    using sq a by (simp add: distance_of_differences_def rnd_numeral)
  have B: "distance_of_differences (Num 5) (Num 0) = Inr (Num 5)"
    using sq b by (simp add: distance_of_differences_def rnd_numeral)
  have C: "distance_of_differences (Num (- 10)) (Num (- 5)) = Inr (Num c)"
    using sq c(1) by (simp add: distance_of_differences_def rnd_numeral)
  have "calculate_ear_f64 (generate_eye_points_f64 (Num 320) (Num 240) (Num 20) (Num 10)) =
     (case distance_of_differences (Num (20 / 4)) (Num (10 / 2)) of Inl e \<Rightarrow> Inl e | Inr A \<Rightarrow>
      case distance_of_differences (Num (20 / 4)) (Num 0) of Inl e \<Rightarrow> Inl e | Inr B \<Rightarrow>
      case distance_of_differences (Num (- (20 / 2))) (Num (- (10 / 2))) of Inl e \<Rightarrow> Inl e | Inr C \<Rightarrow>
        float_truediv (float_add A B) (float_mul (Num 2) C))"
    by (rule calculate_ear_f64_generated_exact) (simp_all add: is_double_def rnd_numeral)
  then show ?thesis
    using A B C m(1) m0 by (simp add: float_truediv_def)
qed

text \<open>
  Claim C6 holds the ratio independent of the centre for every centre. At the centre
  \<open>(2 ^ 60, 2 ^ 60)\<close> the offsets 10 and 5 are absorbed by the rounding, all six points
  coincide and the division raises, while the same eye at (320, 240) has a ratio.
\<close>

theorem calculate_ear_f64_position_counterexample:
  "calculate_ear_f64 (generate_eye_points_f64 (Num (2 ^ 60)) (Num (2 ^ 60)) (Num 20) (Num 10))
     = Inl ZeroDivisionError \<and>
   calculate_ear_f64 (generate_eye_points_f64 (Num 320) (Num 240) (Num 20) (Num 10)) \<noteq>
   calculate_ear_f64 (generate_eye_points_f64 (Num (2 ^ 60)) (Num (2 ^ 60)) (Num 20) (Num 10))"
  using calculate_ear_f64_script_eye calculate_ear_f64_far_away by auto

end
